theory Spec2Isabelle
  imports Complex_Main
begin

section \<open>Residuals of a linear model fit from a QR factorization\<close>

text \<open>
  A shallow embedding of \<^verbatim>\<open>get_residuals\<close> (\<^verbatim>\<open>src/get_residuals.cpp\<close>).
  The function reads rows of a feature-by-sample matrix, applies \<open>Q\<^sup>t\<close>, zeroes the
  first \<open>ncoefs\<close> entries, applies \<open>Q\<close>, lowers the entries whose raw value was at or
  below a bound, and writes the row to the output.

  Conventions of the model.
  \<^item> A \<^verbatim>\<open>double\<close> stored in a matrix or a buffer is a finite value, held as the
    \<open>real\<close> it denotes. The one arithmetic operation of the source file, the
    subtraction of line 65, is the binary64 subtraction: the exact difference rounded
    to the nearest double, ties to even (\<open>round64\<close>). The comparisons of the source
    are exact on doubles. The multiplier is not part of the source file and is
    modelled as the spec words it, as the exact product with \<open>Q\<close>. Infinities and
    NaN inside a matrix are outside the model. The lower bound is the one scalar whose
    non-finite values the code inspects (\<^verbatim>\<open>R_FINITE\<close>), so it has a type of its own.
  \<^item> Sizes and column indices are \<open>nat\<close>. The dimensions of an R matrix are 32-bit
    signed integers, so the conversion of a column index from \<^verbatim>\<open>size_t\<close> to the
    \<^verbatim>\<open>int\<close> of the deque loses nothing.
  \<^item> Every exception of the source, and every access outside a buffer, is a value of
    type \<open>error\<close>; a call returns either an error or the output, together with
    the list of row reads and row writes it has performed on the matrices.
\<close>

subsection \<open>Scalars and errors\<close>

datatype double = Finite real | PosInf | NegInf | NaN

fun R_FINITE :: "double \<Rightarrow> bool" where
  "R_FINITE (Finite x) = True"
| "R_FINITE PosInf = False"
| "R_FINITE NegInf = False"
| "R_FINITE NaN = False"

text \<open>The comparison \<^verbatim>\<open>*tIt <= lbound\<close> of a finite value with the bound.\<close>

fun le_double :: "real \<Rightarrow> double \<Rightarrow> bool" where
  "le_double x (Finite b) = (x \<le> b)"
| "le_double x PosInf = True"
| "le_double x NegInf = False"
| "le_double x NaN = False"

text \<open>
  Rounding to binary64. A double has 53 significant bits: around a value \<open>x\<close> with
  \<^verbatim>\<open>2^e <= |x| < 2^(e+1)\<close> the doubles are the multiples of \<^verbatim>\<open>2^(e-52)\<close>, and below
  \<^verbatim>\<open>2^-1022\<close> the spacing stays \<^verbatim>\<open>2^-1074\<close>. For \<open>a > 0\<close>, \<open>binade a\<close> is that
  exponent \<open>e\<close>, found from the number of bits of the integer part of \<open>a\<close> (of
  \<open>1 / a\<close> below one). \<open>round64\<close> rounds to the nearest multiple of the spacing,
  a tie to the even multiple. It has no overflow case: a finite double minus one is
  never beyond the largest double after rounding.
\<close>

fun bit_length :: "nat \<Rightarrow> nat" where
  "bit_length n = (if n = 0 then 0 else Suc (bit_length (n div 2)))"

definition pow2 :: "int \<Rightarrow> real" where
  "pow2 k = (if 0 \<le> k then 2 ^ nat k else 1 / 2 ^ nat (- k))"

definition binade :: "real \<Rightarrow> int" where
  "binade a =
     (if 1 \<le> a then int (bit_length (nat \<lfloor>a\<rfloor>)) - 1
      else - int (bit_length (nat (\<lceil>1 / a\<rceil> - 1))))"

definition ulp64 :: "real \<Rightarrow> real" where
  "ulp64 x = pow2 (max (binade \<bar>x\<bar>) (- 1022) - 52)"

definition round_ties_even :: "real \<Rightarrow> int" where
  "round_ties_even y =
     (let f = \<lfloor>y\<rfloor>; d = y - of_int f in
      if d < 1 / 2 then f else if 1 / 2 < d then f + 1 else if even f then f else f + 1)"

definition round64 :: "real \<Rightarrow> real" where
  "round64 x = (if x = 0 then 0 else of_int (round_ties_even (x / ulp64 x)) * ulp64 x)"

datatype error =
    BoundsError         \<comment> \<open>a subset index outside the rows of the matrix\<close>
  | DimensionMismatch   \<comment> \<open>the factorization does not fit the vector\<close>
  | InvalidScalar       \<comment> \<open>the lower bound is not one number\<close>
  | RowIndexError       \<comment> \<open>the matrix accessor was given a row it does not have\<close>
  | OutOfBounds         \<comment> \<open>an access outside a buffer\<close>

datatype event = GetRow nat | SetRow nat

subsection \<open>The row matrix accessor\<close>

text \<open>
  Modelled from the spec: the matrix abstraction (beachmat) is not part of the source
  file. It exposes the row count, the column count, a class and package tag, and
  \<^verbatim>\<open>get_row\<close>, which fills a buffer with the \<open>get_ncol\<close> values of one row. The
  accessor refuses a row index outside the matrix.
\<close>

record numeric_matrix =
  get_class :: string
  get_package :: string
  get_nrow :: nat
  get_ncol :: nat
  cell :: "nat \<Rightarrow> nat \<Rightarrow> real"

definition get_row :: "numeric_matrix \<Rightarrow> nat \<Rightarrow> error + real list" where
  "get_row emat r =
     (if r < get_nrow emat then Inr (map (cell emat r) [0..<get_ncol emat])
      else Inl RowIndexError)"

record output_param =
  param_class :: string
  param_package :: string

text \<open>
  Modelled from the spec: the default output parameter, the ordinary dense matrix of
  base R.
\<close>

definition output_param_default :: output_param where
  "output_param_default = \<lparr>param_class = ''matrix'', param_package = ''base''\<rparr>"

record numeric_output =
  out_param :: output_param
  out_nrow :: nat
  out_ncol :: nat
  out_rows :: "real list list"

text \<open>
  Modelled from the spec: the output matrix is allocated once, \<open>nr\<close> rows of \<open>nc\<close>
  zeros; \<^verbatim>\<open>set_row\<close> copies \<open>nc\<close> values from the buffer into one row and refuses a
  row index outside the matrix; \<^verbatim>\<open>yield\<close> hands the finished matrix over.
\<close>

definition create_numeric_output :: "nat \<Rightarrow> nat \<Rightarrow> output_param \<Rightarrow> numeric_output" where
  "create_numeric_output nr nc p =
     \<lparr>out_param = p, out_nrow = nr, out_ncol = nc,
      out_rows = replicate nr (replicate nc 0)\<rparr>"

definition set_row :: "numeric_output \<Rightarrow> nat \<Rightarrow> real list \<Rightarrow> error + numeric_output" where
  "set_row om s buf =
     (if \<not> s < out_nrow om then Inl RowIndexError
      else if length buf < out_ncol om then Inl OutOfBounds
      else Inr (om\<lparr>out_rows := (out_rows om)[s := take (out_ncol om) buf]\<rparr>))"

definition yield :: "numeric_output \<Rightarrow> numeric_output" where
  "yield om = om"

subsection \<open>Argument checks\<close>

text \<open>
  Modelled from the spec: \<^verbatim>\<open>check_subset_vector\<close> (\<^verbatim>\<open>utils.h\<close>) is not part of the
  source file. It takes the integer vector of 0-based row indices and the number of
  rows; an index outside \<open>[0, len)\<close> is a \<open>BoundsError\<close>; otherwise the indices are
  returned in their order, duplicates kept.
\<close>

definition check_subset_vector :: "int list \<Rightarrow> nat \<Rightarrow> error + nat list" where
  "check_subset_vector subvec len =
     (if list_all (\<lambda>i. 0 \<le> i \<and> i < int len) subvec then Inr (map nat subvec)
      else Inl BoundsError)"

text \<open>
  Modelled from the spec: \<^verbatim>\<open>check_numeric_scalar\<close> (\<^verbatim>\<open>utils.h\<close>) is not part of the
  source file. It takes a numeric vector and returns its only element; a vector that
  does not hold exactly one number is an \<open>InvalidScalar\<close>.
\<close>

definition check_numeric_scalar :: "double list \<Rightarrow> error + double" where
  "check_numeric_scalar x = (case x of [v] \<Rightarrow> Inr v | _ \<Rightarrow> Inl InvalidScalar)"

subsection \<open>The orthogonal multiplier\<close>

text \<open>
  Modelled from the spec: \<^verbatim>\<open>run_dormqr\<close> (\<^verbatim>\<open>run_dormqr.h\<close>) is not part of the source
  file. The two artifacts \<^verbatim>\<open>qr\<close> and \<^verbatim>\<open>qraux\<close> encode a square factor \<open>Q\<close> of
  order \<open>nobs\<close> as a product of reflectors, and the number \<open>ncoef\<close> of fitted
  coefficients. The model holds \<open>Q\<close> by its entries \<open>qentry i j\<close> (row \<open>i\<close>, column
  \<open>j\<close>). Building the multiplier fails when \<open>ncoef\<close> exceeds \<open>nobs\<close>. Running it
  replaces a vector \<open>v\<close> of length \<open>nobs\<close> by \<open>Q\<^sup>t v\<close> (side \<^verbatim>\<open>'T'\<close>) or by
  \<open>Q v\<close> (side \<^verbatim>\<open>'N'\<close>), and a vector of another length is a \<open>DimensionMismatch\<close>.
\<close>

record factorization =
  nobs :: nat
  ncoef :: nat
  qentry :: "nat \<Rightarrow> nat \<Rightarrow> real"

record run_dormqr =
  fz :: factorization
  side :: char

definition new_run_dormqr :: "factorization \<Rightarrow> char \<Rightarrow> error + run_dormqr" where
  "new_run_dormqr qr sd =
     (if ncoef qr \<le> nobs qr then Inr \<lparr>fz = qr, side = sd\<rparr> else Inl DimensionMismatch)"

definition get_ncoefs :: "run_dormqr \<Rightarrow> nat" where
  "get_ncoefs m = ncoef (fz m)"

definition apply_Q :: "factorization \<Rightarrow> real list \<Rightarrow> real list" where
  "apply_Q f v =
     map (\<lambda>i. sum_list (map (\<lambda>j. qentry f i j * v ! j) [0..<nobs f])) [0..<nobs f]"

definition apply_Qt :: "factorization \<Rightarrow> real list \<Rightarrow> real list" where
  "apply_Qt f v =
     map (\<lambda>j. sum_list (map (\<lambda>i. qentry f i j * v ! i) [0..<nobs f])) [0..<nobs f]"

definition run :: "run_dormqr \<Rightarrow> real list \<Rightarrow> error + real list" where
  "run m v =
     (if length v \<noteq> nobs (fz m) then Inl DimensionMismatch
      else if side m = CHR ''T'' then Inr (apply_Qt (fz m) v)
      else Inr (apply_Q (fz m) v))"

subsection \<open>The steps of one row\<close>

text \<open>
  The scan of the buffer (lines 51 to 56): column \<open>c\<close> is pushed on the back of the
  deque when the value there is at or below the bound.
\<close>

fun scan_below :: "double \<Rightarrow> real list \<Rightarrow> nat \<Rightarrow> nat list \<Rightarrow> nat list" where
  "scan_below lbound [] c below_bound = below_bound"
| "scan_below lbound (x # xs) c below_bound =
     scan_below lbound xs (Suc c)
       (if le_double x lbound then below_bound @ [c] else below_bound)"

text \<open>
  \<^verbatim>\<open>std::fill(tmp.begin(), tmp.begin()+ncoefs, 0)\<close>: past the end of the buffer the
  source writes outside it.
\<close>

definition fill_zero :: "nat \<Rightarrow> real list \<Rightarrow> error + real list" where
  "fill_zero n tmp =
     (if n \<le> length tmp then Inr (replicate n 0 @ drop n tmp) else Inl OutOfBounds)"

text \<open>
  \<^verbatim>\<open>*std::min_element(tmp.begin(), tmp.end())\<close>: the first smallest value; on an empty
  buffer the source dereferences the end iterator.
\<close>

definition min_element :: "real list \<Rightarrow> error + real" where
  "min_element tmp =
     (case tmp of [] \<Rightarrow> Inl OutOfBounds
      | x # xs \<Rightarrow> Inr (fold (\<lambda>y smallest. if y < smallest then y else smallest) xs x))"

text \<open>The overwrite loop (lines 66 to 68): \<^verbatim>\<open>tmp[*bbIt]=lowest\<close> for each recorded index.\<close>

fun overwrite :: "real \<Rightarrow> nat list \<Rightarrow> real list \<Rightarrow> error + real list" where
  "overwrite lowest [] tmp = Inr tmp"
| "overwrite lowest (b # bs) tmp =
     (if b < length tmp then overwrite lowest bs (tmp[b := lowest]) else Inl OutOfBounds)"

text \<open>
  The sentinel pass (lines 64 to 70) on the buffer and the deque: with a bound and a
  non-empty deque, every recorded position receives \<^verbatim>\<open>lowest\<close>, the smallest value
  of the buffer minus one as the binary64 subtraction of line 65 gives it, and the
  deque is cleared; otherwise both are left as they are.
\<close>

definition sentinel_pass ::
  "bool \<Rightarrow> nat list \<Rightarrow> real list \<Rightarrow> error + (real list \<times> nat list)" where
  "sentinel_pass check_lower below_bound tmp =
     (if check_lower \<and> below_bound \<noteq> []
      then (case min_element tmp of
              Inl e \<Rightarrow> Inl e
            | Inr m \<Rightarrow>
                let lowest = round64 (m - 1) in
                (case overwrite lowest below_bound tmp of
                   Inl e \<Rightarrow> Inl e
                 | Inr tmp' \<Rightarrow> Inr (tmp', [])))
      else Inr (tmp, below_bound))"

record loop_state =
  below_bound :: "nat list"
  omat :: numeric_output
  io :: "event list"

text \<open>
  The body of the loop over the subset (lines 47 to 72), for subset element \<open>sIt\<close> at
  position \<open>s\<close>. An error carries the reads and writes performed before it.
\<close>

definition iteration ::
  "numeric_matrix \<Rightarrow> nat \<Rightarrow> run_dormqr \<Rightarrow> run_dormqr \<Rightarrow> nat \<Rightarrow> double \<Rightarrow> bool \<Rightarrow>
   nat \<Rightarrow> nat \<Rightarrow> loop_state \<Rightarrow> (error \<times> event list) + loop_state" where
  "iteration emat ncells multQ1 multQ2 ncoefs lbound check_lower sIt s st =
     (case get_row emat sIt of
        Inl e \<Rightarrow> Inl (e, io st)
      | Inr tmp \<Rightarrow>
          let io1 = io st @ [GetRow sIt];
              bb = (if check_lower then scan_below lbound (take ncells tmp) 0 (below_bound st)
                    else below_bound st)
          in
          (case run multQ1 tmp of
             Inl e \<Rightarrow> Inl (e, io1)
           | Inr tmp1 \<Rightarrow>
          (case fill_zero ncoefs tmp1 of
             Inl e \<Rightarrow> Inl (e, io1)
           | Inr tmp2 \<Rightarrow>
          (case run multQ2 tmp2 of
             Inl e \<Rightarrow> Inl (e, io1)
           | Inr tmp3 \<Rightarrow>
          (case sentinel_pass check_lower bb tmp3 of
             Inl e \<Rightarrow> Inl (e, io1)
           | Inr (tmp4, bb') \<Rightarrow>
          (case set_row (omat st) s tmp4 of
             Inl e \<Rightarrow> Inl (e, io1)
           | Inr om \<Rightarrow>
               Inr \<lparr>below_bound = bb', omat = om, io = io1 @ [SetRow s]\<rparr>))))))"

text \<open>The loop \<^verbatim>\<open>for (size_t s=0; s<slen; ++s, ++sIt)\<close> over the rest of the subset.\<close>

fun row_loop ::
  "numeric_matrix \<Rightarrow> nat \<Rightarrow> run_dormqr \<Rightarrow> run_dormqr \<Rightarrow> nat \<Rightarrow> double \<Rightarrow> bool \<Rightarrow>
   nat list \<Rightarrow> nat \<Rightarrow> loop_state \<Rightarrow> (error \<times> event list) + loop_state" where
  "row_loop emat ncells multQ1 multQ2 ncoefs lbound check_lower [] s st = Inr st"
| "row_loop emat ncells multQ1 multQ2 ncoefs lbound check_lower (sIt # rest) s st =
     (case iteration emat ncells multQ1 multQ2 ncoefs lbound check_lower sIt s st of
        Inl e \<Rightarrow> Inl e
      | Inr st' \<Rightarrow>
          row_loop emat ncells multQ1 multQ2 ncoefs lbound check_lower rest (Suc s) st')"

subsection \<open>The function\<close>

text \<open>
  Lines 35 to 38: the output parameter. The guard of the exception compares the class
  with two different strings.
\<close>

definition OPARAM :: "numeric_matrix \<Rightarrow> output_param" where
  "OPARAM emat =
     (if get_class emat = ''dgCMatrix'' \<and> get_class emat = ''Matrix''
      then output_param_default
      else \<lparr>param_class = get_class emat, param_package = get_package emat\<rparr>)"

definition initial_state :: "nat \<Rightarrow> nat \<Rightarrow> output_param \<Rightarrow> loop_state" where
  "initial_state slen ncells p =
     \<lparr>below_bound = [], omat = create_numeric_output slen ncells p, io = []\<rparr>"

definition get_residuals ::
  "numeric_matrix \<Rightarrow> factorization \<Rightarrow> int list \<Rightarrow> double list \<Rightarrow>
   (error \<times> event list) + (numeric_output \<times> event list)" where
  "get_residuals exprs qr subvec lower_bound =
     (let emat = exprs; ncells = get_ncol emat in
      case check_subset_vector subvec (get_nrow emat) of
        Inl e \<Rightarrow> Inl (e, [])
      | Inr subout \<Rightarrow>
      let slen = length subout in
      (case new_run_dormqr qr (CHR ''T'') of
        Inl e \<Rightarrow> Inl (e, [])
      | Inr multQ1 \<Rightarrow>
      (case new_run_dormqr qr (CHR ''N'') of
        Inl e \<Rightarrow> Inl (e, [])
      | Inr multQ2 \<Rightarrow>
      let ncoefs = get_ncoefs multQ1 in
      (case check_numeric_scalar lower_bound of
        Inl e \<Rightarrow> Inl (e, [])
      | Inr lbound \<Rightarrow>
      let check_lower = R_FINITE lbound in
      (case row_loop emat ncells multQ1 multQ2 ncoefs lbound check_lower subout 0
              (initial_state slen ncells (OPARAM emat)) of
        Inl e \<Rightarrow> Inl e
      | Inr st \<Rightarrow> Inr (yield (omat st), io st))))))"

subsection \<open>What the spec says a row of the output is\<close>

text \<open>
  The definitions of this part follow the words of the spec, not the source; the
  theorems below compare the function with them.
\<close>

text \<open>Row \<open>r\<close> of the input matrix, as a dense vector.\<close>

definition row_of :: "numeric_matrix \<Rightarrow> nat \<Rightarrow> real list" where
  "row_of emat r = map (cell emat r) [0..<get_ncol emat]"

text \<open>
  Steps 3 to 5 of the spec: rotate by \<open>Q\<^sup>t\<close>, discard the first \<open>ncoef\<close>
  coordinates, rotate back by \<open>Q\<close>.
\<close>

definition projected :: "factorization \<Rightarrow> real list \<Rightarrow> real list" where
  "projected f v = apply_Q f (replicate (ncoef f) 0 @ drop (ncoef f) (apply_Qt f v))"

text \<open>
  Steps 2 and 6 of the spec on top of the projection: with a finite bound and at least
  one raw value at or below it, every such position holds the smallest projected value
  minus one, the difference taken in binary64.
\<close>

definition residual_row :: "factorization \<Rightarrow> double \<Rightarrow> real list \<Rightarrow> real list" where
  "residual_row f lb v =
     (let r = projected f v in
      if R_FINITE lb \<and> list_ex (\<lambda>x. le_double x lb) v
      then map (\<lambda>c. if le_double (v ! c) lb then round64 (Min (set r) - 1) else r ! c)
             [0..<length v]
      else r)"

text \<open>
  The ordinary-least-squares residual \<open>v - Q\<^sub>1 (Q\<^sub>1\<^sup>t v)\<close>, where \<open>Q\<^sub>1\<close> is the first
  \<open>ncoef\<close> columns of \<open>Q\<close>.
\<close>

definition Q1t_apply :: "factorization \<Rightarrow> real list \<Rightarrow> real list" where
  "Q1t_apply f v =
     map (\<lambda>j. sum_list (map (\<lambda>i. qentry f i j * v ! i) [0..<nobs f])) [0..<ncoef f]"

definition Q1_apply :: "factorization \<Rightarrow> real list \<Rightarrow> real list" where
  "Q1_apply f w =
     map (\<lambda>i. sum_list (map (\<lambda>j. qentry f i j * w ! j) [0..<ncoef f])) [0..<nobs f]"

definition ols_residual :: "factorization \<Rightarrow> real list \<Rightarrow> real list" where
  "ols_residual f v = map (\<lambda>i. v ! i - Q1_apply f (Q1t_apply f v) ! i) [0..<length v]"

text \<open>
  \<open>Q\<close> is orthogonal: \<open>Q Q\<^sup>t\<close> is the identity (for a square matrix this is the same
  as \<open>Q\<^sup>t Q\<close> being the identity).
\<close>

definition orthogonal_factor :: "factorization \<Rightarrow> bool" where
  "orthogonal_factor f \<longleftrightarrow>
     list_all (\<lambda>i. list_all (\<lambda>j.
         sum_list (map (\<lambda>k. qentry f i k * qentry f j k) [0..<nobs f]) =
         (if i = j then 1 else 0))
       [0..<nobs f]) [0..<nobs f]"

text \<open>
  The reads and writes of a complete run over the subset: for each position, in
  order, one row read and one row written.
\<close>

fun row_events :: "nat list \<Rightarrow> nat \<Rightarrow> event list" where
  "row_events [] s = []"
| "row_events (sIt # rest) s = GetRow sIt # SetRow s # row_events rest (Suc s)"

text \<open>
  The preconditions of a call: every subset index is a row of the matrix, and the
  factorization fits the sample count.
\<close>

definition valid_call :: "numeric_matrix \<Rightarrow> factorization \<Rightarrow> int list \<Rightarrow> bool" where
  "valid_call exprs qr subvec \<longleftrightarrow>
     list_all (\<lambda>i. 0 \<le> i \<and> i < int (get_nrow exprs)) subvec \<and>
     ncoef qr \<le> nobs qr \<and> nobs qr = get_ncol exprs"

text \<open>
  The path without thresholding, in the spec's words: steps 1, 3, 4, 5 and 7 alone.
  There is no bound, no scan, no deque and no sentinel pass.
\<close>

definition plain_iteration ::
  "numeric_matrix \<Rightarrow> run_dormqr \<Rightarrow> run_dormqr \<Rightarrow> nat \<Rightarrow> nat \<Rightarrow> nat \<Rightarrow>
   numeric_output \<times> event list \<Rightarrow> (error \<times> event list) + (numeric_output \<times> event list)" where
  "plain_iteration emat multQ1 multQ2 ncoefs sIt s st =
     (case get_row emat sIt of
        Inl e \<Rightarrow> Inl (e, snd st)
      | Inr tmp \<Rightarrow>
          let io1 = snd st @ [GetRow sIt] in
          (case run multQ1 tmp of
             Inl e \<Rightarrow> Inl (e, io1)
           | Inr tmp1 \<Rightarrow>
          (case fill_zero ncoefs tmp1 of
             Inl e \<Rightarrow> Inl (e, io1)
           | Inr tmp2 \<Rightarrow>
          (case run multQ2 tmp2 of
             Inl e \<Rightarrow> Inl (e, io1)
           | Inr tmp3 \<Rightarrow>
          (case set_row (fst st) s tmp3 of
             Inl e \<Rightarrow> Inl (e, io1)
           | Inr om \<Rightarrow> Inr (om, io1 @ [SetRow s]))))))"

fun plain_loop ::
  "numeric_matrix \<Rightarrow> run_dormqr \<Rightarrow> run_dormqr \<Rightarrow> nat \<Rightarrow> nat list \<Rightarrow> nat \<Rightarrow>
   numeric_output \<times> event list \<Rightarrow> (error \<times> event list) + (numeric_output \<times> event list)" where
  "plain_loop emat multQ1 multQ2 ncoefs [] s st = Inr st"
| "plain_loop emat multQ1 multQ2 ncoefs (sIt # rest) s st =
     (case plain_iteration emat multQ1 multQ2 ncoefs sIt s st of
        Inl e \<Rightarrow> Inl e
      | Inr st' \<Rightarrow> plain_loop emat multQ1 multQ2 ncoefs rest (Suc s) st')"

definition qr_residuals_only ::
  "numeric_matrix \<Rightarrow> factorization \<Rightarrow> int list \<Rightarrow>
   (error \<times> event list) + (numeric_output \<times> event list)" where
  "qr_residuals_only exprs qr subvec =
     (case check_subset_vector subvec (get_nrow exprs) of
        Inl e \<Rightarrow> Inl (e, [])
      | Inr subout \<Rightarrow>
      (case new_run_dormqr qr (CHR ''T'') of
        Inl e \<Rightarrow> Inl (e, [])
      | Inr multQ1 \<Rightarrow>
      (case new_run_dormqr qr (CHR ''N'') of
        Inl e \<Rightarrow> Inl (e, [])
      | Inr multQ2 \<Rightarrow>
          plain_loop exprs multQ1 multQ2 (get_ncoefs multQ1) subout 0
            (create_numeric_output (length subout) (get_ncol exprs) (OPARAM exprs), []))))"

subsection \<open>A small input\<close>

text \<open>
  Two features and two samples, stored as a compressed sparse column matrix of the
  Matrix package, and a one-coefficient factorization whose \<open>Q\<close> is a reflection with
  rational entries.
\<close>

definition ex_matrix :: numeric_matrix where
  "ex_matrix =
     \<lparr>get_class = ''dgCMatrix'', get_package = ''Matrix'', get_nrow = 2, get_ncol = 2,
      cell = (\<lambda>r c. [[5, 1], [7, 8]] ! r ! c)\<rparr>"

definition ex_qr :: factorization where
  "ex_qr = \<lparr>nobs = 2, ncoef = 1, qentry = (\<lambda>i j. [[3/5, 4/5], [4/5, -3/5]] ! i ! j)\<rparr>"

text \<open>
  Three features and four samples with values of large magnitude, all of them
  doubles, and the reflection \<open>Q = I - J / 2\<close> (\<open>J\<close> the matrix of ones), whose
  entries are one half and minus one half: on this input every product and every sum
  of the projection is exact in binary64.
\<close>

definition ex_large :: numeric_matrix where
  "ex_large =
     \<lparr>get_class = ''matrix'', get_package = ''base'', get_nrow = 3, get_ncol = 4,
      cell = (\<lambda>r c. [[0, 2 ^ 54, 2 ^ 56, 2 ^ 54],
                      [- (2 ^ 54), - (2 ^ 54), - (2 ^ 55), - (2 ^ 54)],
                      [- 4, - 8, 0, - 4]] ! r ! c)\<rparr>"

definition ex_refl :: factorization where
  "ex_refl = \<lparr>nobs = 4, ncoef = 1, qentry = (\<lambda>i j. (if i = j then 1 else 0) - 1 / 2)\<rparr>"

section \<open>Lemmas\<close>

subsection \<open>The binade of a positive number\<close>

lemma bit_length_bounds:
  "0 < n \<Longrightarrow> 2 ^ (bit_length n - 1) \<le> n \<and> n < 2 ^ bit_length n"
proof (induction n rule: bit_length.induct)
  case (1 n)
  show ?case
  proof (cases "n div 2 = 0")
    case True
    with "1.prems" have "n = 1" by (simp add: div_eq_0_iff) 
    then show ?thesis by simp
  next
    case False
    then have pos: "0 < n div 2" by simp
    from "1.IH" [OF _ pos] "1.prems"
    have ih: "2 ^ (bit_length (n div 2) - 1) \<le> n div 2" "n div 2 < 2 ^ bit_length (n div 2)"
      by simp_all
    from pos have bl: "0 < bit_length (n div 2)" by simp
    have eq: "bit_length n = Suc (bit_length (n div 2))" using "1.prems" by simp
    have "2 ^ (bit_length n - 1) = 2 * 2 ^ (bit_length (n div 2) - 1)"
      using bl eq by (cases "bit_length (n div 2)") simp_all
    also have "\<dots> \<le> 2 * (n div 2)" using ih(1) by simp
    also have "\<dots> \<le> n" by simp
    finally have lo: "2 ^ (bit_length n - 1) \<le> n" .
    have "n < 2 * (n div 2) + 2" by presburger
    also have "\<dots> \<le> 2 * 2 ^ bit_length (n div 2)" using ih(2) by simp
    finally have "n < 2 ^ bit_length n" using eq by simp
    with lo show ?thesis by simp
  qed
qed

lemma binade_bounds:
  assumes "0 < a"
  shows "pow2 (binade a) \<le> a \<and> a < pow2 (binade a + 1)"
proof (cases "1 \<le> a")
  case True
  let ?n = "nat \<lfloor>a\<rfloor>"
  from True have n: "0 < ?n" by simp
  from bit_length_bounds [OF n]
  have lo: "2 ^ (bit_length ?n - 1) \<le> ?n" and hi: "?n < 2 ^ bit_length ?n" by simp_all
  from n have k: "0 < bit_length ?n" by simp
  have b: "binade a = int (bit_length ?n) - 1" using True by (simp add: binade_def)
  have na: "real ?n \<le> a" using True by simp
  have "pow2 (binade a) = 2 ^ (bit_length ?n - 1)"
    using k by (simp add: b pow2_def nat_diff_distrib')
  also have "\<dots> = real (2 ^ (bit_length ?n - 1))" by simp
  also have "\<dots> \<le> real ?n" using lo by (simp only: of_nat_le_iff)
  finally have l: "pow2 (binade a) \<le> a" using na by simp
  have "a < real ?n + 1" using True by linarith
  also have "\<dots> = real (Suc ?n)" by simp
  also have "\<dots> \<le> real (2 ^ bit_length ?n)" using hi by (simp only: of_nat_le_iff Suc_le_eq)
  also have "\<dots> = pow2 (binade a + 1)" by (simp add: b pow2_def)
  finally show ?thesis using l by simp
next
  case False
  let ?y = "1 / a"
  let ?m = "nat (\<lceil>?y\<rceil> - 1)"
  from False assms have y: "1 < ?y" by simp
  then have c: "2 \<le> \<lceil>?y\<rceil>" by linarith
  then have m: "0 < ?m" by simp
  from bit_length_bounds [OF m]
  have lo: "2 ^ (bit_length ?m - 1) \<le> ?m" and hi: "?m < 2 ^ bit_length ?m" by simp_all
  from m have k: "0 < bit_length ?m" by simp
  have b: "binade a = - int (bit_length ?m)" using False by (simp add: binade_def)
  from c have "0 \<le> \<lceil>?y\<rceil> - 1" by linarith
  then have "real ?m = real_of_int (\<lceil>?y\<rceil> - 1)" by (rule of_nat_nat)
  then have m1: "real ?m = of_int \<lceil>?y\<rceil> - 1" by (simp only: of_int_diff of_int_1)
  have "?y \<le> real ?m + 1" unfolding m1 by linarith
  also have "\<dots> = real (Suc ?m)" by simp
  also have "\<dots> \<le> real (2 ^ bit_length ?m)" using hi by (simp only: of_nat_le_iff Suc_le_eq)
  finally have "?y \<le> 2 ^ bit_length ?m" by simp
  then have "1 \<le> a * 2 ^ bit_length ?m"
    using assms by (simp add: field_simps)
  then have l: "pow2 (binade a) \<le> a"
    using k by (simp add: b pow2_def field_simps)
  have "real (2 ^ (bit_length ?m - 1)) \<le> real ?m" using lo by (simp only: of_nat_le_iff)
  also have "\<dots> < ?y" unfolding m1 by linarith
  finally have "2 ^ (bit_length ?m - 1) < ?y" by simp
  then have "a * 2 ^ (bit_length ?m - 1) < 1"
    using assms by (simp add: field_simps)
  then have h: "a < pow2 (binade a + 1)"
    using k by (cases "bit_length ?m") (auto simp: b pow2_def field_simps nat_diff_distrib')
  from l h show ?thesis by simp
qed

text \<open>A multiple of the spacing of its binade is a double, and rounding leaves it as it is.\<close>

lemma pow2_pos: "0 < pow2 k"
  by (simp add: pow2_def)

lemma round_ties_even_int: "round_ties_even (of_int n) = n"
  by (simp add: round_ties_even_def)

lemma round64_fixed:
  assumes "x / ulp64 x = of_int n"
  shows "round64 x = x"
proof -
  have u: "ulp64 x \<noteq> 0" using pow2_pos [of "max (binade \<bar>x\<bar>) (- 1022) - 52"]
    by (simp add: ulp64_def)
  from assms u have "x = of_int n * ulp64 x" by (simp add: field_simps)
  with assms show ?thesis
    by (simp add: round64_def round_ties_even_int)
qed

subsection \<open>The steps of one row\<close>

lemma set_scan_below:
  "set (scan_below lb xs c bb) = set bb \<union> {i + c |i. i < length xs \<and> le_double (xs ! i) lb}"
proof (induction xs arbitrary: c bb)
  case Nil
  then show ?case by simp
next
  case (Cons x xs)
  have split: "{i + c |i. i < Suc (length xs) \<and> le_double ((x # xs) ! i) lb} =
      (if le_double x lb then {c} else {}) \<union> {i + Suc c |i. i < length xs \<and> le_double (xs ! i) lb}"
    (is "?L = ?R")
  proof (rule set_eqI)
    fix k
    show "k \<in> ?L \<longleftrightarrow> k \<in> ?R"
    proof
      assume "k \<in> ?L"
      then obtain i where i: "k = i + c" "i < Suc (length xs)" "le_double ((x # xs) ! i) lb" by blast
      show "k \<in> ?R"
      proof (cases i)
        case 0
        with i show ?thesis by simp
      next
        case (Suc j)
        with i have "k = j + Suc c" "j < length xs" "le_double (xs ! j) lb" by simp_all
        then show ?thesis by blast
      qed
    next
      assume "k \<in> ?R"
      then consider "le_double x lb" "k = c"
        | j where "k = j + Suc c" "j < length xs" "le_double (xs ! j) lb"
        by (auto split: if_splits)
      then show "k \<in> ?L"
      proof cases
        case 1
        then have "k = 0 + c \<and> 0 < Suc (length xs) \<and> le_double ((x # xs) ! 0) lb" by simp
        then show ?thesis by blast
      next
        case 2
        then have "k = Suc j + c \<and> Suc j < Suc (length xs) \<and> le_double ((x # xs) ! Suc j) lb"
          by simp
        then show ?thesis by blast
      qed
    qed
  qed
  show ?case
    by (simp only: scan_below.simps Cons.IH length_Cons split) auto
qed

lemma min_element_Min: "tmp \<noteq> [] \<Longrightarrow> min_element tmp = Inr (Min (set tmp))"
proof -
  assume "tmp \<noteq> []"
  then obtain x xs where t: "tmp = x # xs" by (cases tmp) auto
  have "(\<lambda>y smallest. if y < smallest then y else smallest) = (min :: real \<Rightarrow> real \<Rightarrow> real)"
    by (intro ext) (simp add: min_def)
  moreover have "fold min xs x = Min (set (x # xs))"
    by (simp only: Min.set_eq_fold)
  ultimately show ?thesis
    using t by (simp add: min_element_def)
qed

lemma overwrite_map:
  "\<forall>b\<in>set bs. b < length tmp \<Longrightarrow>
   overwrite v bs tmp = Inr (map (\<lambda>i. if i \<in> set bs then v else tmp ! i) [0..<length tmp])"
proof (induction bs arbitrary: tmp)
  case Nil
  then show ?case by (simp add: map_nth)
next
  case (Cons b bs)
  have "map (\<lambda>i. if i \<in> set bs then v else tmp[b := v] ! i) [0..<length tmp] =
        map (\<lambda>i. if i \<in> set (b # bs) then v else tmp ! i) [0..<length tmp]"
    by (rule map_cong) (auto simp: nth_list_update)
  with Cons show ?case by simp
qed

lemma length_apply_Q [simp]: "length (apply_Q f v) = nobs f"
  by (simp add: apply_Q_def)

lemma length_apply_Qt [simp]: "length (apply_Qt f v) = nobs f"
  by (simp add: apply_Qt_def)

lemma length_projected [simp]: "length (projected f v) = nobs f"
  by (simp add: projected_def)

lemma scan_below_empty_iff:
  "scan_below lb v 0 [] \<noteq> [] \<longleftrightarrow> list_ex (\<lambda>x. le_double x lb) v"
proof -
  have "scan_below lb v 0 [] \<noteq> [] \<longleftrightarrow> set (scan_below lb v 0 []) \<noteq> {}" by simp
  also have "\<dots> \<longleftrightarrow> (\<exists>i<length v. le_double (v ! i) lb)"
    by (simp only: set_scan_below) auto
  also have "\<dots> \<longleftrightarrow> list_ex (\<lambda>x. le_double x lb) v"
    unfolding list_ex_iff by (metis in_set_conv_nth)
  finally show ?thesis .
qed

lemma sentinel_pass_scan:
  assumes len: "length tmp = length v" and fin: "R_FINITE lb"
  shows "sentinel_pass (R_FINITE lb) (scan_below lb v 0 []) tmp =
         Inr (if R_FINITE lb \<and> list_ex (\<lambda>x. le_double x lb) v
              then map (\<lambda>c. if le_double (v ! c) lb then round64 (Min (set tmp) - 1) else tmp ! c)
                     [0..<length v]
              else tmp, [])"
proof (cases "R_FINITE lb \<and> list_ex (\<lambda>x. le_double x lb) v")
  case True
  let ?bb = "scan_below lb v 0 []"
  from True have ne: "?bb \<noteq> []" by (simp add: scan_below_empty_iff)
  have setbb: "set ?bb = {i. i < length v \<and> le_double (v ! i) lb}"
    by (simp only: set_scan_below) auto
  from True have "v \<noteq> []" by (auto simp: list_ex_iff)
  with len have "tmp \<noteq> []" by auto
  then have m: "min_element tmp = Inr (Min (set tmp))" by (rule min_element_Min)
  have inr: "\<forall>b\<in>set ?bb. b < length tmp" using len by (simp add: setbb)
  have "map (\<lambda>i. if i \<in> set ?bb then round64 (Min (set tmp) - 1) else tmp ! i) [0..<length tmp] =
        map (\<lambda>c. if le_double (v ! c) lb then round64 (Min (set tmp) - 1) else tmp ! c) [0..<length v]"
    unfolding len by (rule map_cong) (auto simp: setbb)
  with overwrite_map [OF inr, of "round64 (Min (set tmp) - 1)"]
  have "overwrite (round64 (Min (set tmp) - 1)) ?bb tmp =
        Inr (map (\<lambda>c. if le_double (v ! c) lb then round64 (Min (set tmp) - 1) else tmp ! c) [0..<length v])"
    by simp
  with True ne m show ?thesis by (simp add: sentinel_pass_def)
next
  case False
  with fin have "\<not> list_ex (\<lambda>x. le_double x lb) v" by simp
  then have "scan_below lb v 0 [] = []"
    using scan_below_empty_iff [of lb v] by simp
  with False fin show ?thesis
    by (simp add: sentinel_pass_def)
qed

lemma iteration_valid:
  assumes r: "sIt < get_nrow emat"
    and n: "nobs qr = get_ncol emat"
    and k: "ncoef qr \<le> nobs qr"
    and bb: "below_bound st = []"
    and s: "s < out_nrow (omat st)"
    and nc: "out_ncol (omat st) = get_ncol emat"
  shows "iteration emat (get_ncol emat) \<lparr>fz = qr, side = CHR ''T''\<rparr> \<lparr>fz = qr, side = CHR ''N''\<rparr>
           (ncoef qr) lbound (R_FINITE lbound) sIt s st =
         Inr \<lparr>below_bound = [],
              omat = (omat st)\<lparr>out_rows :=
                (out_rows (omat st))[s := residual_row qr lbound (row_of emat sIt)]\<rparr>,
              io = io st @ [GetRow sIt, SetRow s]\<rparr>"
proof -
  let ?v = "row_of emat sIt"
  have lv: "length ?v = get_ncol emat" by (simp add: row_of_def)
  have g: "get_row emat sIt = Inr ?v" using r by (simp add: get_row_def row_of_def)
  have r1: "run \<lparr>fz = qr, side = CHR ''T''\<rparr> ?v = Inr (apply_Qt qr ?v)"
    using n lv by (simp add: run_def)
  have f: "fill_zero (ncoef qr) (apply_Qt qr ?v) =
           Inr (replicate (ncoef qr) 0 @ drop (ncoef qr) (apply_Qt qr ?v))"
    using k by (simp add: fill_zero_def)
  have r2: "run \<lparr>fz = qr, side = CHR ''N''\<rparr>
              (replicate (ncoef qr) 0 @ drop (ncoef qr) (apply_Qt qr ?v)) =
            Inr (projected qr ?v)"
    using k by (simp add: run_def projected_def)
  have sp: "R_FINITE lbound \<Longrightarrow>
            sentinel_pass (R_FINITE lbound) (scan_below lbound ?v 0 []) (projected qr ?v) =
            Inr (residual_row qr lbound ?v, [])"
    using sentinel_pass_scan [of "projected qr ?v" ?v lbound] n lv
    by (simp add: residual_row_def Let_def)
  have sp': "\<not> R_FINITE lbound \<Longrightarrow>
             sentinel_pass False [] (projected qr ?v) = Inr (residual_row qr lbound ?v, [])"
    by (simp add: sentinel_pass_def residual_row_def)
  have lr: "length (residual_row qr lbound ?v) = get_ncol emat"
    using n lv by (simp add: residual_row_def Let_def)
  have sr: "set_row (omat st) s (residual_row qr lbound ?v) =
            Inr ((omat st)\<lparr>out_rows := (out_rows (omat st))[s := residual_row qr lbound ?v]\<rparr>)"
    using s nc lr by (simp add: set_row_def)
  show ?thesis
  proof (cases "R_FINITE lbound")
    case True
    then show ?thesis
      using g r1 f r2 sp sr lv bb by (simp add: iteration_def Let_def)
  next
    case False
    then show ?thesis
      using g r1 f r2 sp' sr lv bb by (simp add: iteration_def Let_def)
  qed
qed

subsection \<open>The loop and the whole call on valid input\<close>

lemma row_loop_valid:
  assumes n: "nobs qr = get_ncol emat"
    and k: "ncoef qr \<le> nobs qr"
  shows "\<forall>r\<in>set rest. r < get_nrow emat \<Longrightarrow>
    below_bound st = [] \<Longrightarrow>
    s + length rest \<le> out_nrow (omat st) \<Longrightarrow>
    length (out_rows (omat st)) = out_nrow (omat st) \<Longrightarrow>
    out_ncol (omat st) = get_ncol emat \<Longrightarrow>
    \<exists>st'. row_loop emat (get_ncol emat) \<lparr>fz = qr, side = CHR ''T''\<rparr>
             \<lparr>fz = qr, side = CHR ''N''\<rparr> (ncoef qr) lbound (R_FINITE lbound) rest s st = Inr st'
      \<and> below_bound st' = []
      \<and> out_param (omat st') = out_param (omat st)
      \<and> out_nrow (omat st') = out_nrow (omat st)
      \<and> out_ncol (omat st') = out_ncol (omat st)
      \<and> out_rows (omat st') =
          take s (out_rows (omat st)) @
          map (\<lambda>r. residual_row qr lbound (row_of emat r)) rest @
          drop (s + length rest) (out_rows (omat st))
      \<and> io st' = io st @ row_events rest s"
proof (induction rest arbitrary: s st)
  case Nil
  then show ?case by simp
next
  case (Cons r rest)
  let ?x = "residual_row qr lbound (row_of emat r)"
  let ?st1 = "\<lparr>below_bound = [],
               omat = (omat st)\<lparr>out_rows := (out_rows (omat st))[s := ?x]\<rparr>,
               io = io st @ [GetRow r, SetRow s]\<rparr>"
  from Cons.prems have r: "r < get_nrow emat" and s: "s < out_nrow (omat st)" by simp_all
  have it: "iteration emat (get_ncol emat) \<lparr>fz = qr, side = CHR ''T''\<rparr>
              \<lparr>fz = qr, side = CHR ''N''\<rparr> (ncoef qr) lbound (R_FINITE lbound) r s st = Inr ?st1"
    using iteration_valid [OF r n k Cons.prems(2) s Cons.prems(5)] .
  have "\<exists>st'. row_loop emat (get_ncol emat) \<lparr>fz = qr, side = CHR ''T''\<rparr>
             \<lparr>fz = qr, side = CHR ''N''\<rparr> (ncoef qr) lbound (R_FINITE lbound) rest (Suc s) ?st1 = Inr st'
      \<and> below_bound st' = []
      \<and> out_param (omat st') = out_param (omat ?st1)
      \<and> out_nrow (omat st') = out_nrow (omat ?st1)
      \<and> out_ncol (omat st') = out_ncol (omat ?st1)
      \<and> out_rows (omat st') =
          take (Suc s) (out_rows (omat ?st1)) @
          map (\<lambda>r. residual_row qr lbound (row_of emat r)) rest @
          drop (Suc s + length rest) (out_rows (omat ?st1))
      \<and> io st' = io ?st1 @ row_events rest (Suc s)"
    using Cons.prems by (intro Cons.IH) simp_all
  then obtain st' where st':
    "row_loop emat (get_ncol emat) \<lparr>fz = qr, side = CHR ''T''\<rparr>
       \<lparr>fz = qr, side = CHR ''N''\<rparr> (ncoef qr) lbound (R_FINITE lbound) rest (Suc s) ?st1 = Inr st'"
    "below_bound st' = []"
    "out_param (omat st') = out_param (omat st)"
    "out_nrow (omat st') = out_nrow (omat st)"
    "out_ncol (omat st') = out_ncol (omat st)"
    "out_rows (omat st') =
       take (Suc s) ((out_rows (omat st))[s := ?x]) @
       map (\<lambda>r. residual_row qr lbound (row_of emat r)) rest @
       drop (Suc s + length rest) ((out_rows (omat st))[s := ?x])"
    "io st' = io st @ [GetRow r, SetRow s] @ row_events rest (Suc s)"
    by auto
  have sl: "s < length (out_rows (omat st))" using s Cons.prems(4) by simp
  have t: "take (Suc s) ((out_rows (omat st))[s := ?x]) = take s (out_rows (omat st)) @ [?x]"
    using sl by (simp add: take_Suc_conv_app_nth)
  have d: "drop (Suc s + length rest) ((out_rows (omat st))[s := ?x]) =
           drop (s + length (r # rest)) (out_rows (omat st))"
    by simp
  show ?case
    using it st'(1-5) st'(7) by (simp add: st'(6) t d)
qed

lemma get_residuals_valid:
  assumes v: "valid_call exprs qr subvec"
  shows "get_residuals exprs qr subvec [lb] =
         Inr (\<lparr>out_param = OPARAM exprs, out_nrow = length subvec, out_ncol = get_ncol exprs,
               out_rows = map (\<lambda>i. residual_row qr lb (row_of exprs (nat i))) subvec\<rparr>,
              row_events (map nat subvec) 0)"
proof -
  let ?st0 = "initial_state (length subvec) (get_ncol exprs) (OPARAM exprs)"
  from v have sub: "list_all (\<lambda>i. 0 \<le> i \<and> i < int (get_nrow exprs)) subvec"
    and k: "ncoef qr \<le> nobs qr" and n: "nobs qr = get_ncol exprs"
    by (simp_all add: valid_call_def)
  have rng: "\<forall>r\<in>set (map nat subvec). r < get_nrow exprs"
    using sub by (auto simp: list_all_iff)
  obtain st' where st':
    "row_loop exprs (get_ncol exprs) \<lparr>fz = qr, side = CHR ''T''\<rparr>
       \<lparr>fz = qr, side = CHR ''N''\<rparr> (ncoef qr) lb (R_FINITE lb) (map nat subvec) 0 ?st0 = Inr st'"
    "out_param (omat st') = out_param (omat ?st0)"
    "out_nrow (omat st') = out_nrow (omat ?st0)"
    "out_ncol (omat st') = out_ncol (omat ?st0)"
    "out_rows (omat st') =
       take 0 (out_rows (omat ?st0)) @
       map (\<lambda>r. residual_row qr lb (row_of exprs r)) (map nat subvec) @
       drop (0 + length (map nat subvec)) (out_rows (omat ?st0))"
    "io st' = io ?st0 @ row_events (map nat subvec) 0"
    using row_loop_valid [OF n k rng, of ?st0 0 lb]
    by (auto simp: initial_state_def create_numeric_output_def)
  have om: "omat st' =
      \<lparr>out_param = OPARAM exprs, out_nrow = length subvec, out_ncol = get_ncol exprs,
       out_rows = map (\<lambda>i. residual_row qr lb (row_of exprs (nat i))) subvec\<rparr>"
    using st'(2-5)
    by (cases "omat st'") (simp add: initial_state_def create_numeric_output_def comp_def)
  have io: "io st' = row_events (map nat subvec) 0"
    using st'(6) by (simp add: initial_state_def)
  show ?thesis
    using sub k st'(1) om io
    by (simp add: get_residuals_def check_subset_vector_def new_run_dormqr_def
        get_ncoefs_def check_numeric_scalar_def yield_def Let_def)
qed

subsection \<open>The projection is the least-squares residual\<close>

lemma sum_list_upt: "sum_list (map g [0..<n]) = (\<Sum>j<n. g j)"
  by (simp add: interv_sum_list_conv_sum_set_nat atLeast0LessThan)

lemma orthogonal_factorD:
  "orthogonal_factor f \<Longrightarrow> i < nobs f \<Longrightarrow> l < nobs f \<Longrightarrow>
   (\<Sum>j<nobs f. qentry f i j * qentry f l j) = (if i = l then 1 else 0)"
  by (simp add: orthogonal_factor_def list_all_iff sum_list_upt)

lemma apply_Q_Qt:
  assumes o: "orthogonal_factor f" and i: "i < nobs f"
  shows "(\<Sum>j<nobs f. qentry f i j * apply_Qt f v ! j) = v ! i"
proof -
  have "(\<Sum>j<nobs f. qentry f i j * apply_Qt f v ! j) =
        (\<Sum>j<nobs f. \<Sum>l<nobs f. qentry f i j * (qentry f l j * v ! l))"
    by (rule sum.cong) (simp_all add: apply_Qt_def sum_list_upt sum_distrib_left)
  also have "\<dots> = (\<Sum>l<nobs f. \<Sum>j<nobs f. qentry f i j * (qentry f l j * v ! l))"
    by (rule sum.swap)
  also have "\<dots> = (\<Sum>l<nobs f. (\<Sum>j<nobs f. qentry f i j * qentry f l j) * v ! l)"
    by (rule sum.cong) (simp_all add: sum_distrib_right mult.assoc)
  also have "\<dots> = (\<Sum>l<nobs f. (if i = l then 1 else 0) * v ! l)"
    by (rule sum.cong) (simp_all add: orthogonal_factorD [OF o i])
  also have "\<dots> = (\<Sum>l<nobs f. if l = i then v ! l else 0)"
    by (rule sum.cong) simp_all
  also have "\<dots> = v ! i"
    using i by (simp add: sum.delta)
  finally show ?thesis .
qed

lemma projected_nth:
  assumes k: "ncoef f \<le> nobs f" and i: "i < nobs f"
  shows "projected f v ! i =
         (\<Sum>j<nobs f. qentry f i j * apply_Qt f v ! j) -
         (\<Sum>j<ncoef f. qentry f i j * apply_Qt f v ! j)"
proof -
  let ?w = "apply_Qt f v"
  let ?z = "replicate (ncoef f) 0 @ drop (ncoef f) ?w"
  have z: "?z ! j = (if j < ncoef f then 0 else ?w ! j)" if "j < nobs f" for j
    using that k by (simp add: nth_append)
  have "projected f v ! i = (\<Sum>j<nobs f. qentry f i j * ?z ! j)"
    using i by (simp add: projected_def apply_Q_def sum_list_upt)
  also have "\<dots> = (\<Sum>j<nobs f. if j < ncoef f then 0 else qentry f i j * ?w ! j)"
    by (rule sum.cong) (simp_all add: z)
  also have "\<dots> = (\<Sum>j<nobs f. qentry f i j * ?w ! j - (if j < ncoef f then qentry f i j * ?w ! j else 0))"
    by (rule sum.cong) simp_all
  also have "\<dots> = (\<Sum>j<nobs f. qentry f i j * ?w ! j) -
                  (\<Sum>j<nobs f. if j < ncoef f then qentry f i j * ?w ! j else 0)"
    by (simp add: sum_subtractf)
  also have "(\<Sum>j<nobs f. if j < ncoef f then qentry f i j * ?w ! j else 0) =
             (\<Sum>j\<in>{j. j < nobs f \<and> j < ncoef f}. qentry f i j * ?w ! j)"
    by (subst sum.inter_filter [symmetric]) (auto intro: sum.cong)
  also have "{j. j < nobs f \<and> j < ncoef f} = {..<ncoef f}"
    using k by auto
  finally show ?thesis .
qed

lemma Q1_Q1t_nth:
  assumes k: "ncoef f \<le> nobs f" and i: "i < nobs f"
  shows "Q1_apply f (Q1t_apply f v) ! i = (\<Sum>j<ncoef f. qentry f i j * apply_Qt f v ! j)"
proof -
  have "Q1t_apply f v ! j = apply_Qt f v ! j" if "j < ncoef f" for j
    using that k by (simp add: Q1t_apply_def apply_Qt_def)
  then show ?thesis
    using i by (simp add: Q1_apply_def sum_list_upt)
qed

lemma projected_ols:
  assumes o: "orthogonal_factor f" and k: "ncoef f \<le> nobs f" and len: "length v = nobs f"
  shows "projected f v = ols_residual f v"
proof (rule nth_equalityI)
  show "length (projected f v) = length (ols_residual f v)"
    using len by (simp add: ols_residual_def)
next
  fix i assume "i < length (projected f v)"
  then have i: "i < nobs f" by simp
  show "projected f v ! i = ols_residual f v ! i"
    using i len
    by (simp add: projected_nth [OF k i] apply_Q_Qt [OF o i] ols_residual_def Q1_Q1t_nth [OF k i])
qed

subsection \<open>Facts of every run\<close>

lemma sentinel_pass_success:
  "sentinel_pass cl bb tmp = Inr (t, bb') \<Longrightarrow> (cl \<longrightarrow> bb' = []) \<and> (\<not> cl \<longrightarrow> bb' = bb \<and> t = tmp)"
  by (auto simp: sentinel_pass_def Let_def split: if_splits sum.splits)

lemma iteration_success:
  assumes "iteration emat ncells multQ1 multQ2 ncoefs lbound check_lower sIt s st = Inr st'"
  shows "(below_bound st = [] \<longrightarrow> below_bound st' = [])
       \<and> out_param (omat st') = out_param (omat st)
       \<and> io st' = io st @ [GetRow sIt, SetRow s]"
  using assms
  by (auto simp: iteration_def Let_def set_row_def split: sum.splits if_splits prod.splits
      dest: sentinel_pass_success)

lemma row_loop_success:
  "row_loop emat ncells multQ1 multQ2 ncoefs lbound check_lower rest s st = Inr st' \<Longrightarrow>
   (below_bound st = [] \<longrightarrow> below_bound st' = [])
   \<and> out_param (omat st') = out_param (omat st)
   \<and> io st' = io st @ row_events rest s"
proof (induction rest arbitrary: s st)
  case Nil
  then show ?case by simp
next
  case (Cons r rest)
  then obtain st1 where
    it: "iteration emat ncells multQ1 multQ2 ncoefs lbound check_lower r s st = Inr st1"
    and lp: "row_loop emat ncells multQ1 multQ2 ncoefs lbound check_lower rest (Suc s) st1 = Inr st'"
    by (auto split: sum.splits)
  from iteration_success [OF it] Cons.IH [OF lp] show ?case by simp
qed

lemma iteration_plain:
  "iteration emat ncells multQ1 multQ2 ncoefs lbound False sIt s st =
   (case plain_iteration emat multQ1 multQ2 ncoefs sIt s (omat st, io st) of
      Inl e \<Rightarrow> Inl e
    | Inr (om, evs) \<Rightarrow> Inr \<lparr>below_bound = below_bound st, omat = om, io = evs\<rparr>)"
  by (simp add: iteration_def plain_iteration_def sentinel_pass_def Let_def split: sum.splits)

lemma row_loop_plain:
  "row_loop emat ncells multQ1 multQ2 ncoefs lbound False rest s st =
   (case plain_loop emat multQ1 multQ2 ncoefs rest s (omat st, io st) of
      Inl e \<Rightarrow> Inl e
    | Inr (om, evs) \<Rightarrow> Inr \<lparr>below_bound = below_bound st, omat = om, io = evs\<rparr>)"
proof (induction rest arbitrary: s st)
  case Nil
  then show ?case by simp
next
  case (Cons r rest)
  show ?case
    by (simp add: iteration_plain Cons.IH split: sum.splits prod.splits)
qed

lemma get_residuals_nonfinite:
  assumes "\<not> R_FINITE lb"
  shows "get_residuals exprs qr subvec [lb] = qr_residuals_only exprs qr subvec"
  using assms
  by (simp add: get_residuals_def qr_residuals_only_def check_numeric_scalar_def Let_def
      row_loop_plain initial_state_def yield_def split: sum.splits prod.splits)

lemma iteration_Inr_dims:
  "iteration emat ncells multQ1 multQ2 ncoefs lbound check_lower sIt s st = Inr st' \<Longrightarrow>
   nobs (fz multQ1) = get_ncol emat"
  by (auto simp: iteration_def Let_def get_row_def run_def split: sum.splits if_splits)

lemma get_residuals_empty:
  "ncoef qr \<le> nobs qr \<Longrightarrow>
   get_residuals exprs qr [] [lb] =
   Inr (\<lparr>out_param = OPARAM exprs, out_nrow = 0, out_ncol = get_ncol exprs, out_rows = []\<rparr>, [])"
  by (simp add: get_residuals_def check_subset_vector_def new_run_dormqr_def
      check_numeric_scalar_def initial_state_def create_numeric_output_def yield_def Let_def)

lemma get_residuals_Inr:
  assumes ok: "get_residuals exprs qr subvec lower_bound = Inr (out, evs)"
  shows "\<exists>lb. lower_bound = [lb] \<and>
           out = \<lparr>out_param = OPARAM exprs, out_nrow = length subvec, out_ncol = get_ncol exprs,
                  out_rows = map (\<lambda>i. residual_row qr lb (row_of exprs (nat i))) subvec\<rparr> \<and>
           evs = row_events (map nat subvec) 0"
proof -
  from ok have sub: "list_all (\<lambda>i. 0 \<le> i \<and> i < int (get_nrow exprs)) subvec"
    by (auto simp: get_residuals_def check_subset_vector_def split: if_splits)
  from ok have k: "ncoef qr \<le> nobs qr"
    by (auto simp: get_residuals_def check_subset_vector_def new_run_dormqr_def Let_def
        split: if_splits)
  from ok obtain lb where lb: "lower_bound = [lb]"
    by (auto simp: get_residuals_def check_subset_vector_def new_run_dormqr_def Let_def
        check_numeric_scalar_def split: if_splits list.splits)
  show ?thesis
  proof (cases subvec)
    case Nil
    with ok lb get_residuals_empty [OF k, of exprs lb] show ?thesis by simp
  next
    case (Cons i rest)
    from ok sub k lb Cons obtain st1 where
      "iteration exprs (get_ncol exprs) \<lparr>fz = qr, side = CHR ''T''\<rparr> \<lparr>fz = qr, side = CHR ''N''\<rparr>
         (ncoef qr) lb (R_FINITE lb) (nat i) 0
         (initial_state (length subvec) (get_ncol exprs) (OPARAM exprs)) = Inr st1"
      by (auto simp: get_residuals_def check_subset_vector_def new_run_dormqr_def Let_def
          check_numeric_scalar_def get_ncoefs_def split: sum.splits)
    from iteration_Inr_dims [OF this] have "nobs qr = get_ncol exprs" by simp
    with sub k have "valid_call exprs qr subvec" by (simp add: valid_call_def)
    from get_residuals_valid [OF this, of lb] ok lb show ?thesis by simp
  qed
qed

subsection \<open>Rows of the output, errors, and the loop in two parts\<close>

lemma OPARAM_mirror:
  "OPARAM emat = \<lparr>param_class = get_class emat, param_package = get_package emat\<rparr>"
proof -
  have "\<not> (get_class emat = ''dgCMatrix'' \<and> get_class emat = ''Matrix'')"
    by auto
  then show ?thesis by (simp only: OPARAM_def if_False)
qed

lemma residual_row_censored:
  assumes "c < length v" and "v ! c \<le> b"
  shows "residual_row f (Finite b) v ! c = round64 (Min (set (projected f v)) - 1)"
proof -
  from assms have "v ! c \<in> set v" "le_double (v ! c) (Finite b)" by simp_all
  then have "list_ex (\<lambda>x. le_double x (Finite b)) v"
    unfolding list_ex_iff by blast
  with assms show ?thesis by (simp add: residual_row_def Let_def)
qed

lemma residual_row_genuine:
  assumes "c < length v" and "b < v ! c"
  shows "residual_row f (Finite b) v ! c = projected f v ! c"
  using assms by (simp add: residual_row_def Let_def)

lemma row_of_nth: "c < get_ncol emat \<Longrightarrow> row_of emat r ! c = cell emat r c"
  by (simp add: row_of_def)

lemma length_row_of [simp]: "length (row_of emat r) = get_ncol emat"
  by (simp add: row_of_def)

lemma valid_call_all:
  "valid_call exprs qr subvec \<Longrightarrow> valid_call exprs qr (map int [0..<get_nrow exprs])"
  by (simp add: valid_call_def list_all_iff)

lemma valid_call_single:
  "valid_call exprs qr subvec \<Longrightarrow> i < get_nrow exprs \<Longrightarrow> valid_call exprs qr [int i]"
  by (simp add: valid_call_def)

lemma overwrite_Inl: "overwrite v bs tmp = Inl e \<Longrightarrow> e = OutOfBounds"
  by (induction bs arbitrary: tmp) (auto split: if_splits)

lemma iteration_Inl:
  "iteration emat ncells multQ1 multQ2 ncoefs lbound check_lower sIt s st = Inl (e, evs) \<Longrightarrow>
   e \<noteq> BoundsError \<and> e \<noteq> InvalidScalar"
  by (auto simp: iteration_def Let_def get_row_def run_def fill_zero_def sentinel_pass_def
      min_element_def set_row_def
      split: sum.splits if_splits prod.splits list.splits dest: overwrite_Inl)

lemma row_loop_Inl:
  "row_loop emat ncells multQ1 multQ2 ncoefs lbound check_lower rest s st = Inl (e, evs) \<Longrightarrow>
   e \<noteq> BoundsError \<and> e \<noteq> InvalidScalar"
proof (induction rest arbitrary: s st)
  case Nil
  then show ?case by simp
next
  case (Cons r rest)
  show ?case
  proof (cases "iteration emat ncells multQ1 multQ2 ncoefs lbound check_lower r s st")
    case (Inl a)
    with Cons.prems iteration_Inl [of emat ncells multQ1 multQ2 ncoefs lbound check_lower r s st e evs]
    show ?thesis by simp
  next
    case (Inr st1)
    with Cons.prems Cons.IH [of "Suc s" st1] show ?thesis by simp
  qed
qed

lemma get_residuals_Inl:
  assumes "get_residuals exprs qr subvec lower_bound = Inl (e, evs)"
    and "e = BoundsError \<or> e = InvalidScalar"
  shows "evs = []"
proof (rule ccontr)
  assume ne: "evs \<noteq> []"
  with assms(1) obtain emat ncells m1 m2 k lb cl rest s st where
    "row_loop emat ncells m1 m2 k lb cl rest s st = Inl (e, evs)"
    by (auto simp: get_residuals_def Let_def split: sum.splits)
  from row_loop_Inl [OF this] assms(2) show False by simp
qed

lemma row_loop_append:
  "row_loop emat ncells multQ1 multQ2 ncoefs lbound check_lower (xs @ ys) s st =
   (case row_loop emat ncells multQ1 multQ2 ncoefs lbound check_lower xs s st of
      Inl e \<Rightarrow> Inl e
    | Inr st' \<Rightarrow>
        row_loop emat ncells multQ1 multQ2 ncoefs lbound check_lower ys (s + length xs) st')"
  by (induction xs arbitrary: s st) (auto split: sum.splits)




subsection \<open>The small input, evaluated\<close>

lemma upt2: "[0..<2] = [0, Suc 0]"
  by (simp add: upt_conv_Cons)

lemma ex_valid: "valid_call ex_matrix ex_qr [1, 0, 1]"
  by (simp add: valid_call_def ex_matrix_def ex_qr_def)

lemma ex_orth: "orthogonal_factor ex_qr"
  by (simp add: orthogonal_factor_def ex_qr_def upt2)

lemma ex_row0: "row_of ex_matrix 0 = [5, 1]"
  by (simp add: row_of_def ex_matrix_def upt2)

lemma ex_row1: "row_of ex_matrix (Suc 0) = [7, 8]"
  by (simp add: row_of_def ex_matrix_def upt2)

lemma ex_proj0: "projected ex_qr [5, 1] = [68/25, -51/25]"
  by (simp add: projected_def apply_Q_def apply_Qt_def ex_qr_def upt2)

lemma ex_proj1: "projected ex_qr [7, 8] = [16/25, -12/25]"
  by (simp add: projected_def apply_Q_def apply_Qt_def ex_qr_def upt2)

lemma ex_ols0: "ols_residual ex_qr [5, 1] = [68/25, -51/25]"
  by (simp add: ols_residual_def Q1_apply_def Q1t_apply_def ex_qr_def upt2)

lemma ex_run:
  "get_residuals ex_matrix ex_qr [1, 0, 1] [NegInf] =
   Inr (\<lparr>out_param = \<lparr>param_class = ''dgCMatrix'', param_package = ''Matrix''\<rparr>,
         out_nrow = 3, out_ncol = 2,
         out_rows = [[16 / 25, - 12 / 25], [68 / 25, - 51 / 25], [16 / 25, - 12 / 25]]\<rparr>,
        [GetRow 1, SetRow 0, GetRow 0, SetRow 1, GetRow 1, SetRow 2])"
  using get_residuals_valid [OF ex_valid, of NegInf]
  by (simp add: OPARAM_mirror residual_row_def ex_row0 ex_row1 ex_proj0 ex_proj1)
    (simp add: ex_matrix_def)

subsection \<open>The input of large magnitude, evaluated\<close>

lemma upt4: "[0..<4] = [0, Suc 0, Suc (Suc 0), Suc (Suc (Suc 0))]"
  by (simp add: upt_conv_Cons)

lemma round64_tie: "round64 (- (2 ^ 53) - 1) = - (2 ^ 53)"
  by (simp add: round64_def ulp64_def binade_def pow2_def round_ties_even_def Let_def)

lemma round64_absorbed: "round64 (- (7 * 2 ^ 52) - 1) = - (7 * 2 ^ 52)"
  by (simp add: round64_def ulp64_def binade_def pow2_def round_ties_even_def Let_def)

lemma round64_exact: "round64 (- 6 - 1) = - 7"
  by (simp add: round64_def ulp64_def binade_def pow2_def round_ties_even_def Let_def)

lemma ex_large_valid:
  "list_all (\<lambda>i. 0 \<le> i \<and> i < 3) subvec \<Longrightarrow> valid_call ex_large ex_refl subvec"
  by (simp add: valid_call_def ex_large_def ex_refl_def)

lemma ex_large_row0: "row_of ex_large 0 = [0, 2 ^ 54, 2 ^ 56, 2 ^ 54]"
  by (simp add: row_of_def ex_large_def upt4)

lemma ex_large_row1:
  "row_of ex_large (Suc 0) = [- (2 ^ 54), - (2 ^ 54), - (2 ^ 55), - (2 ^ 54)]"
  by (simp add: row_of_def ex_large_def upt4)

lemma ex_large_row2: "row_of ex_large (Suc (Suc 0)) = [- 4, - 8, 0, - 4]"
  by (simp add: row_of_def ex_large_def upt4)

lemma ex_large_proj0:
  "projected ex_refl [0, 2 ^ 54, 2 ^ 56, 2 ^ 54] =
   [3 * 2 ^ 53, - (2 ^ 53), 5 * 2 ^ 53, - (2 ^ 53)]"
  by (simp add: projected_def apply_Q_def apply_Qt_def ex_refl_def upt4)

lemma ex_large_proj1:
  "projected ex_refl [- (2 ^ 54), - (2 ^ 54), - (2 ^ 55), - (2 ^ 54)] =
   [- (7 * 2 ^ 52), - (2 ^ 52), - (5 * 2 ^ 52), - (2 ^ 52)]"
  by (simp add: projected_def apply_Q_def apply_Qt_def ex_refl_def upt4)

lemma ex_large_proj2: "projected ex_refl [- 4, - 8, 0, - 4] = [- 6, - 6, 2, - 2]"
  by (simp add: projected_def apply_Q_def apply_Qt_def ex_refl_def upt4)

lemma ex_large_res0:
  "residual_row ex_refl (Finite 0) [0, 2 ^ 54, 2 ^ 56, 2 ^ 54] =
   [- (2 ^ 53), - (2 ^ 53), 5 * 2 ^ 53, - (2 ^ 53)]"
proof -
  have "Min (set [3 * 2 ^ 53, - (2 ^ 53), 5 * 2 ^ 53, - (2 ^ 53 :: real)]) - 1 = - (2 ^ 53) - 1"
    by simp
  then show ?thesis
    by (simp only: residual_row_def Let_def ex_large_proj0 round64_tie) (simp add: upt4)
qed

lemma ex_large_res1:
  "residual_row ex_refl (Finite 0) [- (2 ^ 54), - (2 ^ 54), - (2 ^ 55), - (2 ^ 54)] =
   [- (7 * 2 ^ 52), - (7 * 2 ^ 52), - (7 * 2 ^ 52), - (7 * 2 ^ 52)]"
proof -
  have "Min (set [- (7 * 2 ^ 52), - (2 ^ 52), - (5 * 2 ^ 52), - (2 ^ 52 :: real)]) - 1 =
        - (7 * 2 ^ 52) - 1"
    by simp
  then show ?thesis
    by (simp only: residual_row_def Let_def ex_large_proj1 round64_absorbed) (simp add: upt4)
qed

lemma ex_large_res2:
  "residual_row ex_refl (Finite 0) [- 4, - 8, 0, - 4] = [- 7, - 7, - 7, - 7]"
proof -
  have "Min (set [- 6, - 6, 2, - 2 :: real]) - 1 = - 6 - 1"
    by simp
  then show ?thesis
    by (simp only: residual_row_def Let_def ex_large_proj2 round64_exact) (simp add: upt4)
qed

section \<open>The claims\<close>

text \<open>
  C1. With the bound disabled (a non-finite lower bound), on a valid call with an
  orthogonal factor, the call returns, and output row \<open>s\<close> is the least-squares
  residual \<open>row - Q\<^sub>1 (Q\<^sub>1\<^sup>t row)\<close> of the input row that subset element \<open>s\<close>
  names; it is also the row obtained by applying \<open>Q\<^sup>t\<close>, zeroing the first
  \<open>ncoef\<close> entries and applying \<open>Q\<close>.
\<close>

theorem ols_residual_rows:
  assumes "valid_call exprs qr subvec" and "orthogonal_factor qr" and "\<not> R_FINITE lb"
  shows "\<exists>out evs. get_residuals exprs qr subvec [lb] = Inr (out, evs) \<and>
           length (out_rows out) = length subvec \<and>
           (\<forall>s<length subvec.
              out_rows out ! s = ols_residual qr (row_of exprs (nat (subvec ! s))) \<and>
              out_rows out ! s =
                apply_Q qr (replicate (ncoef qr) 0 @
                  drop (ncoef qr) (apply_Qt qr (row_of exprs (nat (subvec ! s))))))"
proof -
  from assms(1) have k: "ncoef qr \<le> nobs qr" and n: "nobs qr = get_ncol exprs"
    by (simp_all add: valid_call_def)
  have "residual_row qr lb v = projected qr v" for v
    using assms(3) by (simp add: residual_row_def)
  moreover have "projected qr (row_of exprs r) = ols_residual qr (row_of exprs r)" for r
    using assms(2) k n by (intro projected_ols) (simp_all add: row_of_def)
  ultimately show ?thesis
    using get_residuals_valid [OF assms(1), of lb]
    by (simp add: projected_def)
qed

theorem ols_residual_rows_witness:
  "\<exists>out evs. get_residuals ex_matrix ex_qr [1, 0, 1] [NegInf] = Inr (out, evs) \<and>
     out_rows out ! 1 = ols_residual ex_qr [5, 1] \<and> out_rows out ! 1 = [68/25, -51/25]"
proof -
  let ?sv = "[1, 0, 1] :: int list"
  from ols_residual_rows [OF ex_valid ex_orth, of NegInf]
  obtain out evs where o: "get_residuals ex_matrix ex_qr ?sv [NegInf] = Inr (out, evs)"
    and rows: "\<forall>s<length ?sv.
       out_rows out ! s = ols_residual ex_qr (row_of ex_matrix (nat (?sv ! s))) \<and>
       out_rows out ! s = apply_Q ex_qr (replicate (ncoef ex_qr) 0 @
         drop (ncoef ex_qr) (apply_Qt ex_qr (row_of ex_matrix (nat (?sv ! s)))))"
    by simp blast
  from rows [rule_format, of 1] have "out_rows out ! 1 = ols_residual ex_qr [5, 1]"
    by (simp add: ex_row0)
  with o show ?thesis by (simp add: ex_ols0)
qed

text \<open>
  C2. With a finite bound, every position whose raw value is at or below the bound is
  meant to come out strictly below every position whose raw value is above it (line
  63: forced to a value below the smallest residual). The subtraction of line 65 is a
  binary64 subtraction. On row 0 of the input of large magnitude the smallest
  projected value is \<^verbatim>\<open>-2^53\<close>, and \<^verbatim>\<open>-2^53 - 1\<close> rounds back to \<^verbatim>\<open>-2^53\<close>: column
  0, whose raw value 0 is at the bound, comes out equal to column 1, whose raw value
  \<^verbatim>\<open>2^54\<close> is above it, and not below it.
\<close>

theorem sentinel_equals_genuine_at_large_magnitude:
  "\<exists>out evs. get_residuals ex_large ex_refl [0] [Finite 0] = Inr (out, evs) \<and>
     cell ex_large 0 0 \<le> 0 \<and> 0 < cell ex_large 0 1 \<and>
     out_rows out ! 0 = [- (2 ^ 53), - (2 ^ 53), 5 * 2 ^ 53, - (2 ^ 53)] \<and>
     out_rows out ! 0 ! 0 = out_rows out ! 0 ! 1 \<and>
     \<not> out_rows out ! 0 ! 0 < out_rows out ! 0 ! 1"
proof -
  have v: "valid_call ex_large ex_refl [0]" by (rule ex_large_valid) simp
  from get_residuals_valid [OF v, of "Finite 0"] show ?thesis
    by (simp add: ex_large_row0 ex_large_res0 [simplified]) (simp add: ex_large_def)
qed

text \<open>
  C3. The output parameter mirrors the class and package of the input, and a
  \<^verbatim>\<open>dgCMatrix\<close> input of the Matrix package is meant to get the default parameter
  instead. The guard of line 36 compares the class with both \<^verbatim>\<open>"dgCMatrix"\<close> and
  \<^verbatim>\<open>"Matrix"\<close>, so the exception is never taken: on the small input, which is such
  a matrix, the call returns an output that keeps the sparse class and package, and
  that is not the default parameter.
\<close>

theorem dgCMatrix_output_param_kept:
  "\<exists>out evs. get_residuals ex_matrix ex_qr [1, 0, 1] [Finite 7] = Inr (out, evs) \<and>
     get_class ex_matrix = ''dgCMatrix'' \<and> get_package ex_matrix = ''Matrix'' \<and>
     out_param out = \<lparr>param_class = ''dgCMatrix'', param_package = ''Matrix''\<rparr> \<and>
     out_param out \<noteq> output_param_default"
  using get_residuals_valid [OF ex_valid, of "Finite 7"]
  by (simp add: OPARAM_mirror output_param_default_def) (simp add: ex_matrix_def)

text \<open>
  C4. The guard of the exception never holds, so the output parameter is always the
  class and package of the input, and every output the call returns carries it,
  including for a \<^verbatim>\<open>dgCMatrix\<close> input.
\<close>

theorem output_param_mirrors_input:
  "\<not> (get_class exprs = ''dgCMatrix'' \<and> get_class exprs = ''Matrix'') \<and>
   OPARAM exprs = \<lparr>param_class = get_class exprs, param_package = get_package exprs\<rparr> \<and>
   (\<forall>out evs. get_residuals exprs qr subvec lower_bound = Inr (out, evs) \<longrightarrow>
      out_param out = \<lparr>param_class = get_class exprs, param_package = get_package exprs\<rparr>)"
proof -
  have "\<not> (get_class exprs = ''dgCMatrix'' \<and> get_class exprs = ''Matrix'')" by auto
  moreover have "out_param out = \<lparr>param_class = get_class exprs, param_package = get_package exprs\<rparr>"
    if "get_residuals exprs qr subvec lower_bound = Inr (out, evs)" for out evs
    using get_residuals_Inr [OF that] by (auto simp: OPARAM_mirror)
  ultimately show ?thesis by (simp add: OPARAM_mirror)
qed

theorem output_param_mirrors_input_witness:
  "get_residuals ex_matrix ex_qr [1, 0, 1] [NegInf] =
     Inr (\<lparr>out_param = \<lparr>param_class = ''dgCMatrix'', param_package = ''Matrix''\<rparr>,
           out_nrow = 3, out_ncol = 2,
           out_rows = [[16 / 25, - 12 / 25], [68 / 25, - 51 / 25], [16 / 25, - 12 / 25]]\<rparr>,
          [GetRow 1, SetRow 0, GetRow 0, SetRow 1, GetRow 1, SetRow 2]) \<and>
   OPARAM ex_matrix = \<lparr>param_class = ''dgCMatrix'', param_package = ''Matrix''\<rparr>"
  using output_param_mirrors_input [of ex_matrix ex_qr "[1, 0, 1]" "[NegInf]"] ex_run
  by (simp add: ex_matrix_def)

text \<open>
  C5. With a non-finite lower bound the call is, on every input, the path without
  thresholding: same result or same error, same reads and writes. All non-finite
  bounds give the same result as minus infinity, and on a valid call the output rows
  are the plain projections of the input rows.
\<close>

theorem nonfinite_bound_is_plain_path:
  assumes "\<not> R_FINITE lb"
  shows "get_residuals exprs qr subvec [lb] = qr_residuals_only exprs qr subvec \<and>
         get_residuals exprs qr subvec [lb] = get_residuals exprs qr subvec [NegInf] \<and>
         (valid_call exprs qr subvec \<longrightarrow>
            (\<exists>out evs. get_residuals exprs qr subvec [lb] = Inr (out, evs) \<and>
               out_rows out = map (\<lambda>i. projected qr (row_of exprs (nat i))) subvec))"
proof -
  have "residual_row qr lb v = projected qr v" for v
    using assms by (simp add: residual_row_def)
  then have "valid_call exprs qr subvec \<longrightarrow>
      (\<exists>out evs. get_residuals exprs qr subvec [lb] = Inr (out, evs) \<and>
         out_rows out = map (\<lambda>i. projected qr (row_of exprs (nat i))) subvec)"
    using get_residuals_valid [of exprs qr subvec lb] by simp
  then show ?thesis
    using assms by (simp add: get_residuals_nonfinite)
qed

theorem nonfinite_bound_is_plain_path_witness:
  "get_residuals ex_matrix ex_qr [1, 0, 1] [NaN] = qr_residuals_only ex_matrix ex_qr [1, 0, 1] \<and>
   get_residuals ex_matrix ex_qr [1, 0, 1] [NaN] = get_residuals ex_matrix ex_qr [1, 0, 1] [NegInf] \<and>
   (\<exists>out evs. get_residuals ex_matrix ex_qr [1, 0, 1] [NaN] = Inr (out, evs) \<and>
      out_rows out = [[16 / 25, - 12 / 25], [68 / 25, - 51 / 25], [16 / 25, - 12 / 25]])"
proof -
  have nf: "\<not> R_FINITE NaN" by simp
  note th = nonfinite_bound_is_plain_path [OF nf, of ex_matrix ex_qr "[1, 0, 1]"]
  from th ex_valid have
    "\<exists>out evs. get_residuals ex_matrix ex_qr [1, 0, 1] [NaN] = Inr (out, evs) \<and>
       out_rows out = map (\<lambda>i. projected ex_qr (row_of ex_matrix (nat i))) [1, 0, 1]"
    by blast
  then have
    "\<exists>out evs. get_residuals ex_matrix ex_qr [1, 0, 1] [NaN] = Inr (out, evs) \<and>
       out_rows out = [[16 / 25, - 12 / 25], [68 / 25, - 51 / 25], [16 / 25, - 12 / 25]]"
    by (simp add: ex_row0 ex_row1 ex_proj0 ex_proj1)
  with th show ?thesis by blast
qed

text \<open>
  C6. On a valid call, output row \<open>s\<close> is the residual row of the input row that
  subset element \<open>s\<close> names, which is row \<open>subvec ! s\<close> of the output of the call
  on all rows; in particular row 0 of the call on the subset \<open>[i]\<close> is row \<open>i\<close> of
  the call on all rows.
\<close>

theorem subset_rows:
  assumes "valid_call exprs qr subvec" and "i < get_nrow exprs"
  shows "\<exists>out evs out1 evs1 outall evsall.
           get_residuals exprs qr subvec [lb] = Inr (out, evs) \<and>
           get_residuals exprs qr [int i] [lb] = Inr (out1, evs1) \<and>
           get_residuals exprs qr (map int [0..<get_nrow exprs]) [lb] = Inr (outall, evsall) \<and>
           length (out_rows out1) = 1 \<and>
           length (out_rows outall) = get_nrow exprs \<and>
           out_rows out1 ! 0 = out_rows outall ! i \<and>
           length (out_rows out) = length subvec \<and>
           (\<forall>s<length subvec.
              out_rows out ! s = residual_row qr lb (row_of exprs (nat (subvec ! s))) \<and>
              out_rows out ! s = out_rows outall ! nat (subvec ! s))"
proof -
  have "nat (subvec ! s) < get_nrow exprs" if "s < length subvec" for s
    using assms(1) that by (auto simp: valid_call_def list_all_length)
  then show ?thesis
    using get_residuals_valid [OF assms(1), of lb]
      get_residuals_valid [OF valid_call_single [OF assms], of lb]
      get_residuals_valid [OF valid_call_all [OF assms(1)], of lb] assms(2)
    by simp
qed

theorem subset_rows_witness:
  "\<exists>out1 evs1 outall evsall.
     get_residuals ex_large ex_refl [2] [Finite 0] = Inr (out1, evs1) \<and>
     get_residuals ex_large ex_refl [0, 1, 2] [Finite 0] = Inr (outall, evsall) \<and>
     out_rows out1 ! 0 = out_rows outall ! 2 \<and>
     out_rows out1 ! 0 = [- 7, - 7, - 7, - 7]"
proof -
  have all: "map int [0..<get_nrow ex_large] = [0, 1, 2]"
    by (simp add: ex_large_def upt_conv_Cons)
  have i: "(2::nat) < get_nrow ex_large" by (simp add: ex_large_def)
  have v: "valid_call ex_large ex_refl [2]" by (rule ex_large_valid) simp
  from subset_rows [OF v i, of "Finite 0"]
  obtain out1 evs1 outall evsall where
    "get_residuals ex_large ex_refl [2] [Finite 0] = Inr (out1, evs1)"
    "get_residuals ex_large ex_refl [0, 1, 2] [Finite 0] = Inr (outall, evsall)"
    "out_rows out1 ! 0 = out_rows outall ! 2"
    unfolding all by auto
  moreover from this(1) get_residuals_valid [OF v, of "Finite 0"]
  have "out_rows out1 ! 0 = [- 7, - 7, - 7, - 7]"
    by (auto simp: ex_large_row2 [simplified] ex_large_res2 numeral_2_eq_2)
  ultimately show ?thesis by blast
qed

text \<open>
  C7. A row whose raw values are all at or below a finite bound is meant to come out
  with every entry equal to the smallest projected value minus one. On row 1 of the
  input of large magnitude the smallest projected value is \<^verbatim>\<open>-7 * 2^52\<close>, and the
  binary64 subtraction of line 65 gives that value back: every entry of the output
  row is the minimum itself, not the minimum minus one.
\<close>

theorem all_censored_row_at_large_magnitude:
  "\<exists>out evs. get_residuals ex_large ex_refl [1] [Finite 0] = Inr (out, evs) \<and>
     list_all (\<lambda>x. x \<le> 0) (row_of ex_large 1) \<and>
     Min (set (projected ex_refl (row_of ex_large 1))) = - (7 * 2 ^ 52) \<and>
     out_rows out ! 0 = replicate 4 (- (7 * 2 ^ 52)) \<and>
     out_rows out ! 0 \<noteq> replicate 4 (Min (set (projected ex_refl (row_of ex_large 1))) - 1)"
proof -
  have v: "valid_call ex_large ex_refl [1]" by (rule ex_large_valid) simp
  have m: "Min (set (projected ex_refl (row_of ex_large 1))) = - (7 * 2 ^ 52)"
    by (simp add: ex_large_row1 ex_large_proj1 [simplified])
  from get_residuals_valid [OF v, of "Finite 0"] show ?thesis
    unfolding m
    by (simp add: ex_large_row1 ex_large_res1 [simplified] numeral_eq_Suc)
qed




text \<open>
  C9. The deque of below-bound indices is empty whenever an iteration starts: the loop
  over the subset is the loop over its first \<open>k\<close> elements followed by the loop
  over the others, and the state between the two has an empty deque; one iteration
  started with an empty deque ends with an empty deque.
\<close>

theorem below_bound_empty_each_iteration:
  "(\<forall>st. row_loop emat ncells multQ1 multQ2 ncoefs lbound check_lower (take k subout) 0
           (initial_state slen ncells p) = Inr st \<longrightarrow> below_bound st = []) \<and>
   row_loop emat ncells multQ1 multQ2 ncoefs lbound check_lower subout 0
     (initial_state slen ncells p) =
   (case row_loop emat ncells multQ1 multQ2 ncoefs lbound check_lower (take k subout) 0
           (initial_state slen ncells p) of
      Inl e \<Rightarrow> Inl e
    | Inr st \<Rightarrow>
        row_loop emat ncells multQ1 multQ2 ncoefs lbound check_lower (drop k subout)
          (length (take k subout)) st) \<and>
   (\<forall>st st'. iteration emat ncells multQ1 multQ2 ncoefs lbound check_lower sIt s st = Inr st' \<longrightarrow>
      below_bound st = [] \<longrightarrow> below_bound st' = [])"
proof (intro conjI allI impI)
  fix st
  assume "row_loop emat ncells multQ1 multQ2 ncoefs lbound check_lower (take k subout) 0
            (initial_state slen ncells p) = Inr st"
  from row_loop_success [OF this] show "below_bound st = []"
    by (simp add: initial_state_def)
next
  show "row_loop emat ncells multQ1 multQ2 ncoefs lbound check_lower subout 0
     (initial_state slen ncells p) =
   (case row_loop emat ncells multQ1 multQ2 ncoefs lbound check_lower (take k subout) 0
           (initial_state slen ncells p) of
      Inl e \<Rightarrow> Inl e
    | Inr st \<Rightarrow>
        row_loop emat ncells multQ1 multQ2 ncoefs lbound check_lower (drop k subout)
          (length (take k subout)) st)"
    using row_loop_append [of emat ncells multQ1 multQ2 ncoefs lbound check_lower
        "take k subout" "drop k subout" 0 "initial_state slen ncells p"]
    by (simp split: sum.splits)
next
  fix st st'
  assume "iteration emat ncells multQ1 multQ2 ncoefs lbound check_lower sIt s st = Inr st'"
    and "below_bound st = []"
  with iteration_success show "below_bound st' = []" by blast
qed

theorem below_bound_empty_each_iteration_witness:
  "\<exists>st. row_loop ex_large 4 \<lparr>fz = ex_refl, side = CHR ''T''\<rparr> \<lparr>fz = ex_refl, side = CHR ''N''\<rparr>
          1 (Finite 0) True (take 2 [2, 0, 2]) 0 (initial_state 3 4 (OPARAM ex_large)) = Inr st \<and>
        below_bound st = [] \<and>
        out_rows (omat st) =
          [[- 7, - 7, - 7, - 7], [- (2 ^ 53), - (2 ^ 53), 5 * 2 ^ 53, - (2 ^ 53)], [0, 0, 0, 0]]"
proof -
  let ?st0 = "initial_state 3 4 (OPARAM ex_large)"
  have n: "nobs ex_refl = get_ncol ex_large" and k: "ncoef ex_refl \<le> nobs ex_refl"
    by (simp_all add: ex_refl_def ex_large_def)
  have e1: "get_ncol ex_large = 4" and e2: "ncoef ex_refl = 1"
    by (simp_all add: ex_refl_def ex_large_def)
  have e3: "take 2 [2, 0, 2 :: nat] = [2, 0]" by (simp add: numeral_2_eq_2)
  have p1: "\<forall>r\<in>set [2, 0 :: nat]. r < get_nrow ex_large" by (simp add: ex_large_def)
  have p2: "below_bound ?st0 = []" by (simp add: initial_state_def)
  have p3: "0 + length [2, 0 :: nat] \<le> out_nrow (omat ?st0)"
    by (simp add: initial_state_def create_numeric_output_def)
  have p4: "length (out_rows (omat ?st0)) = out_nrow (omat ?st0)"
    by (simp add: initial_state_def create_numeric_output_def)
  have p5: "out_ncol (omat ?st0) = get_ncol ex_large"
    by (simp add: initial_state_def create_numeric_output_def e1)
  from row_loop_valid [OF n k p1 p2 p3 p4 p5, of "Finite 0"]
  obtain st where a: "row_loop ex_large (get_ncol ex_large) \<lparr>fz = ex_refl, side = CHR ''T''\<rparr>
        \<lparr>fz = ex_refl, side = CHR ''N''\<rparr> (ncoef ex_refl) (Finite 0) (R_FINITE (Finite 0))
        [2, 0] 0 ?st0 = Inr st"
    and b: "out_rows (omat st) =
        take 0 (out_rows (omat ?st0)) @
        map (\<lambda>r. residual_row ex_refl (Finite 0) (row_of ex_large r)) [2, 0] @
        drop (0 + length [2, 0 :: nat]) (out_rows (omat ?st0))"
    by blast
  from a have a': "row_loop ex_large 4 \<lparr>fz = ex_refl, side = CHR ''T''\<rparr>
        \<lparr>fz = ex_refl, side = CHR ''N''\<rparr> 1 (Finite 0) True (take 2 [2, 0, 2]) 0 ?st0 = Inr st"
    by (simp only: e1 e2 e3 R_FINITE.simps)
  from b have b': "out_rows (omat st) =
      [[- 7, - 7, - 7, - 7], [- (2 ^ 53), - (2 ^ 53), 5 * 2 ^ 53, - (2 ^ 53)], [0, 0, 0, 0]]"
    by (simp add: ex_large_row0 [simplified] ex_large_row2 [simplified]
        ex_large_res0 [simplified] ex_large_res2
        initial_state_def create_numeric_output_def numeral_eq_Suc)
  from below_bound_empty_each_iteration
    [of ex_large 4 "\<lparr>fz = ex_refl, side = CHR ''T''\<rparr>" "\<lparr>fz = ex_refl, side = CHR ''N''\<rparr>"
      1 "Finite 0" True 2 "[2, 0, 2]" 3 "OPARAM ex_large"] a'
  have "below_bound st = []" by blast
  with a' b' show ?thesis by blast
qed

text \<open>
  C10. On a valid call, two positions of the subset that name the same input row
  receive equal output rows.
\<close>

theorem duplicate_rows_equal:
  assumes "valid_call exprs qr subvec" and "s1 < length subvec" and "s2 < length subvec"
    and "subvec ! s1 = subvec ! s2"
  shows "\<exists>out evs. get_residuals exprs qr subvec [lb] = Inr (out, evs) \<and>
           out_rows out ! s1 = out_rows out ! s2"
  using get_residuals_valid [OF assms(1), of lb] assms(2-4) by simp

theorem duplicate_rows_equal_witness:
  "\<exists>out evs. get_residuals ex_matrix ex_qr [1, 0, 1] [Finite 7] = Inr (out, evs) \<and>
     out_rows out ! 0 = out_rows out ! 2"
  using duplicate_rows_equal [OF ex_valid, of 0 2 "Finite 7"] by simp

end
